theory Spec2Isabelle
  imports
    Main
    "HOL-Library.Char_ord"
    "HOL-Library.List_Lexorder"
    "HOL-Library.Product_Lexorder"
begin

section \<open>Strings of the retrieval engine\<close>

text \<open>
  A Python \<open>str\<close> is modelled as a \<open>string\<close> whose characters are the code points
  0..255 (Latin-1). On this range \<open>str.lower\<close> maps one character to one character and
  \<open>str.isalnum\<close>, \<open>str.isspace\<close> are the predicates below. Strings are compared as
  Python compares them: lexicographically by code point.
\<close>

definition in_range :: "nat \<Rightarrow> nat \<Rightarrow> char \<Rightarrow> bool" where
  "in_range lo hi ch = (lo \<le> of_char ch \<and> of_char ch \<le> hi)"

definition isalnum :: "char \<Rightarrow> bool" where
  "isalnum ch =
     (in_range 48 57 ch \<or> in_range 65 90 ch \<or> in_range 97 122 ch \<or>
      in_range 170 170 ch \<or> in_range 178 179 ch \<or> in_range 181 181 ch \<or>
      in_range 185 186 ch \<or> in_range 188 190 ch \<or>
      in_range 192 214 ch \<or> in_range 216 246 ch \<or> in_range 248 255 ch)"

definition isspace :: "char \<Rightarrow> bool" where
  "isspace ch =
     (in_range 9 13 ch \<or> in_range 28 32 ch \<or> in_range 133 133 ch \<or> in_range 160 160 ch)"

definition lower_char :: "char \<Rightarrow> char" where
  "lower_char ch =
     (if in_range 65 90 ch \<or> in_range 192 214 ch \<or> in_range 216 222 ch
      then char_of (of_char ch + (32::nat)) else ch)"

definition lower :: "string \<Rightarrow> string" where
  "lower text = map lower_char text"

text \<open>\<open>str.split()\<close> without argument: the maximal runs of non-whitespace characters.\<close>

fun split_from :: "string \<Rightarrow> string \<Rightarrow> string list" where
  "split_from cur [] = (if cur = [] then [] else [cur])"
| "split_from cur (ch # rest) =
     (if isspace ch
      then (if cur = [] then split_from [] rest else cur # split_from [] rest)
      else split_from (cur @ [ch]) rest)"

definition split :: "string \<Rightarrow> string list" where
  "split s = split_from [] s"

text \<open>\<open>t in s\<close> on strings: \<open>t\<close> occurs in \<open>s\<close> as a contiguous substring.\<close>

fun startswith :: "string \<Rightarrow> string \<Rightarrow> bool" where
  "startswith s [] = True"
| "startswith [] (c # t) = False"
| "startswith (d # s) (c # t) = (d = c \<and> startswith s t)"

fun str_contains :: "string \<Rightarrow> string \<Rightarrow> bool" where
  "str_contains [] t = (t = [])"
| "str_contains (d # s) t = (startswith (d # s) t \<or> str_contains s t)"

section \<open>Tokenizer\<close>

text \<open>
  \<^verbatim>\<open>[t for t in ''.join(ch if ch.isalnum() else ' ' for ch in text.lower()).split() if t]\<close>
\<close>

definition tokenize :: "string \<Rightarrow> string list" where
  "tokenize text =
     filter (\<lambda>t. t \<noteq> [])
       (split (map (\<lambda>ch. if isalnum ch then ch else CHR '' '') (lower text)))"

text \<open>
  The tokenizer as the specification words it: lowercase, blank out every character that
  is not alphanumeric, cut at every single blank, drop the empty pieces.
\<close>

fun cut_at_blanks :: "string \<Rightarrow> string list" where
  "cut_at_blanks [] = [[]]"
| "cut_at_blanks (ch # rest) =
     (if ch = CHR '' '' then [] # cut_at_blanks rest
      else (case cut_at_blanks rest of
              [] \<Rightarrow> [[ch]]
            | piece # pieces \<Rightarrow> (ch # piece) # pieces))"

definition blank_out :: "string \<Rightarrow> string" where
  "blank_out text = map (\<lambda>ch. if isalnum ch then ch else CHR '' '') text"

definition spec_tokenize :: "string \<Rightarrow> string list" where
  "spec_tokenize text = filter (\<lambda>t. t \<noteq> []) (cut_at_blanks (blank_out (lower text)))"

section \<open>Records and the matcher\<close>

text \<open>
  One dictionary per discovered file, with the five keys that \<open>scan_dummy_data\<close> writes.
  Floating-point values (\<open>size_kb\<close>, and \<open>st_mtime\<close> below) are kept abstract in the type
  parameter \<open>'f\<close>. The matcher reads a record only through \<open>rec.get("name", "")\<close>,
  here the field \<open>name\<close>; a dictionary without that key reads as one whose name is empty.
\<close>

record 'f file_record =
  path :: string
  name :: string
  ext :: string
  size_kb :: 'f
  modified_iso :: string

definition SEARCH_TRIGGER_KEYWORDS :: "string set" where
  "SEARCH_TRIGGER_KEYWORDS =
     {''find'', ''search'', ''show'', ''document'', ''doc'', ''contract'', ''invoice'',
      ''report'', ''handbook'', ''slide'', ''presentation'', ''prd''}"

definition looks_like_search :: "string \<Rightarrow> bool" where
  "looks_like_search query =
     (let tokens = set (tokenize query)
      in \<exists>k \<in> SEARCH_TRIGGER_KEYWORDS. k \<in> tokens \<or> str_contains (lower query) k)"

text \<open>The body of the scoring loop: the value of \<open>overlap\<close> when the record is tested.\<close>

definition name_overlap :: "string set \<Rightarrow> 'f file_record \<Rightarrow> nat" where
  "name_overlap q_tokens rec = card (q_tokens \<inter> set (tokenize (name rec)))"

definition overlap_of :: "string set \<Rightarrow> 'f file_record \<Rightarrow> nat" where
  "overlap_of q_tokens rec =
     (let overlap = name_overlap q_tokens rec
      in if overlap = 0 \<and> (\<exists>t \<in> q_tokens. str_contains (lower (name rec)) t)
         then 1 else overlap)"

fun score_records ::
  "string set \<Rightarrow> 'f file_record list \<Rightarrow> (nat \<times> 'f file_record) list
     \<Rightarrow> (nat \<times> 'f file_record) list" where
  "score_records q_tokens [] scored = scored"
| "score_records q_tokens (rec # rest) scored =
     (let overlap = overlap_of q_tokens rec
      in if overlap > 0 then score_records q_tokens rest (scored @ [(overlap, rec)])
         else score_records q_tokens rest scored)"

text \<open>The sort key \<^verbatim>\<open>lambda x: (-x[0], x[1].get("name", ""))\<close>; tuples compare lexicographically.\<close>

definition rank_key :: "nat \<times> 'f file_record \<Rightarrow> int \<times> string" where
  "rank_key x = (- int (fst x), name (snd x))"

text \<open>The slice \<open>xs[:k]\<close>; a negative \<open>k\<close> counts from the end.\<close>

definition slice_to :: "'a list \<Rightarrow> int \<Rightarrow> 'a list" where
  "slice_to xs k =
     (if 0 \<le> k then take (nat k) xs else take (length xs - nat (- k)) xs)"

definition search_files :: "string \<Rightarrow> 'f file_record list \<Rightarrow> int \<Rightarrow> 'f file_record list" where
  "search_files query records k =
     (if query = [] \<or> records = [] then []
      else
        let q_tokens = set (tokenize query);
            scored = score_records q_tokens records [];
            scored = sort_key rank_key scored
        in map snd (slice_to scored k))"

text \<open>The records that score positively, in input order, and their ranked arrangement.\<close>

definition survivors :: "string \<Rightarrow> 'f file_record list \<Rightarrow> 'f file_record list" where
  "survivors query records =
     filter (\<lambda>rec. 0 < overlap_of (set (tokenize query)) rec) records"

definition ranked :: "string \<Rightarrow> 'f file_record list \<Rightarrow> 'f file_record list" where
  "ranked query records =
     sort_key (\<lambda>rec. (- int (overlap_of (set (tokenize query)) rec), name rec))
       (survivors query records)"

definition is_blank :: "string \<Rightarrow> bool" where
  "is_blank query = list_all isspace query"

section \<open>Scanner\<close>

text \<open>
  A path is the list of its components (\<open>Path.parts\<close>), which is also what the ordering of
  \<open>Path\<close> objects compares. The host is a record of what the operating system and the
  clock answer to each call. \<open>Path.cwd\<close>, \<open>Path.exists\<close>, \<open>Path.is_dir\<close> and
  \<open>Path.is_file\<close> return a value or raise: \<open>exists\<close>, \<open>is_dir\<close> and \<open>is_file\<close> answer
  \<open>False\<close> for a missing entry and let every other \<open>OSError\<close> through (a permission
  error, a name that is too long). \<open>OSError\<close> stands for the class with its subclasses;
  \<open>stat\<close> raises nothing else (here \<open>None\<close>). Calls are answered one by one, so two calls
  on one path need not agree.
\<close>

type_synonym pure_path = "string list"

datatype py_exn = OSError | RuntimeError | OverflowError | ValueError

record 'f stat_result =
  st_size :: nat
  st_mtime :: 'f

record 'f host =
  cwd :: "py_exn + pure_path"
  exists_p :: "pure_path \<Rightarrow> py_exn + bool"
  is_dir :: "pure_path \<Rightarrow> py_exn + bool"
  is_file :: "pure_path \<Rightarrow> py_exn + bool"
  glob_all :: "pure_path \<Rightarrow> pure_path list"
  stat :: "pure_path \<Rightarrow> 'f stat_result option"
  resolve :: "pure_path \<Rightarrow> py_exn + string"
  kb_rounded :: "nat \<Rightarrow> 'f"
  iso_seconds :: "'f \<Rightarrow> py_exn + string"

text \<open>\<open>p.exists() and p.is_dir()\<close>: \<open>is_dir\<close> is asked only when \<open>exists\<close> answers \<open>True\<close>.\<close>

definition exists_and_is_dir :: "'f host \<Rightarrow> pure_path \<Rightarrow> py_exn + bool" where
  "exists_and_is_dir h p =
     (case exists_p h p of
        Inl e \<Rightarrow> Inl e
      | Inr False \<Rightarrow> Inr False
      | Inr True \<Rightarrow> is_dir h p)"

definition default_root :: "'f host \<Rightarrow> py_exn + pure_path" where
  "default_root h =
     (case cwd h of
        Inl e \<Rightarrow> Inl e
      | Inr app_root \<Rightarrow>
          (let cand = app_root @ [''dummy_data'']
           in case exists_and_is_dir h cand of
                Inl e \<Rightarrow> Inl e
              | Inr True \<Rightarrow> Inr cand
              | Inr False \<Rightarrow>
                  (let fallback = app_root @ [''sample_data'']
                   in case exists_and_is_dir h fallback of
                        Inl e \<Rightarrow> Inl e
                      | Inr True \<Rightarrow> Inr fallback
                      | Inr False \<Rightarrow> Inr cand)))"

definition path_name :: "pure_path \<Rightarrow> string" where
  "path_name p = (if p = [] \<or> p = [''/''] then [] else last p)"

fun rfind :: "char \<Rightarrow> string \<Rightarrow> nat option" where
  "rfind c [] = None"
| "rfind c (d # s) =
     (case rfind c s of
        Some i \<Rightarrow> Some (Suc i)
      | None \<Rightarrow> if d = c then Some 0 else None)"

definition suffix :: "pure_path \<Rightarrow> string" where
  "suffix p =
     (let nm = path_name p
      in case rfind CHR ''.'' nm of
           None \<Rightarrow> []
         | Some i \<Rightarrow> if 0 < i \<and> Suc i < length nm then drop i nm else [])"

text \<open>The body of the \<open>try\<close> block for one entry; \<open>Inl\<close> is the exception it raises.\<close>

definition build_record :: "'f host \<Rightarrow> pure_path \<Rightarrow> py_exn + 'f file_record" where
  "build_record h entry =
     (case stat h entry of
        None \<Rightarrow> Inl OSError
      | Some st \<Rightarrow>
          (case resolve h entry of
             Inl e \<Rightarrow> Inl e
           | Inr resolved \<Rightarrow>
               (case iso_seconds h (st_mtime st) of
                  Inl e \<Rightarrow> Inl e
                | Inr stamp \<Rightarrow>
                    Inr \<lparr>path = resolved, name = path_name entry,
                         ext = lower (suffix entry),
                         size_kb = kb_rounded h (st_size st),
                         modified_iso = stamp\<rparr>)))"

text \<open>
  The loop over the sorted listing. \<open>entry.is_file()\<close> is called before the \<open>try\<close> block,
  so what it raises leaves the function; inside the block only \<open>OSError\<close> is caught.
\<close>

fun scan_entries ::
  "'f host \<Rightarrow> pure_path list \<Rightarrow> 'f file_record list \<Rightarrow> py_exn + 'f file_record list" where
  "scan_entries h [] records = Inr records"
| "scan_entries h (entry # rest) records =
     (case is_file h entry of
        Inl e \<Rightarrow> Inl e
      | Inr False \<Rightarrow> scan_entries h rest records
      | Inr True \<Rightarrow>
          (case build_record h entry of
             Inr r \<Rightarrow> scan_entries h rest (records @ [r])
           | Inl OSError \<Rightarrow> scan_entries h rest records
           | Inl e \<Rightarrow> Inl e))"

text \<open>
  \<open>root\<close> is \<open>None\<close> for a falsy argument (\<open>None\<close> or the empty string) and \<open>Some p\<close> for
  a path \<open>Path(root)\<close>.
\<close>

definition root_path_of :: "'f host \<Rightarrow> pure_path option \<Rightarrow> py_exn + pure_path" where
  "root_path_of h root = (case root of Some p \<Rightarrow> Inr p | None \<Rightarrow> default_root h)"

text \<open>
  The guard \<open>not root_path.exists() or not root_path.is_dir()\<close> asks \<open>is_dir\<close> only when
  \<open>exists\<close> answers \<open>True\<close>.
\<close>

definition scan_dummy_data :: "'f host \<Rightarrow> pure_path option \<Rightarrow> py_exn + 'f file_record list" where
  "scan_dummy_data h root =
     (case root_path_of h root of
        Inl e \<Rightarrow> Inl e
      | Inr root_path \<Rightarrow>
          (case exists_p h root_path of
             Inl e \<Rightarrow> Inl e
           | Inr False \<Rightarrow> Inr []
           | Inr True \<Rightarrow>
               (case is_dir h root_path of
                  Inl e \<Rightarrow> Inl e
                | Inr False \<Rightarrow> Inr []
                | Inr True \<Rightarrow> scan_entries h (sort (glob_all h root_path)) [])))"




text \<open>A sample record with a given name, for the worked examples.\<close>

definition sample_record :: "string \<Rightarrow> int file_record" where
  "sample_record nm =
     \<lparr>path = ''/srv/sample_data/'' @ nm, name = nm, ext = lower (suffix [nm]),
      size_kb = 2, modified_iso = ''2024-03-01T09:30:00''\<rparr>"

definition ten_reports :: "int file_record list" where
  "ten_reports =
     map sample_record
       [''report_7.txt'', ''report_2.txt'', ''report_9.txt'', ''report_0.txt'',
        ''report_5.txt'', ''report_1.txt'', ''report_8.txt'', ''report_3.txt'',
        ''report_6.txt'', ''report_4.txt'']"

text \<open>
  A small host for the worked examples: a data folder with two subfolders and five regular
  files of different sizes, listed by the operating system in no particular order. A path
  with a component of more than 255 characters makes every check raise \<open>OSError\<close> (name
  too long). The file \<open>b/far.bin\<close> carries a modification time of \<open>10^17\<close> seconds; every
  other time stamp of the tree is \<open>1709285400\<close>, which the clock of this host prints as
  \<open>2024-03-01T09:30:00\<close>. \<open>datetime.fromtimestamp\<close> raises \<open>OSError\<close> from \<open>10^17\<close> seconds on
  and \<open>ValueError\<close> for a year after 9999.
\<close>

definition demo_root :: pure_path where
  "demo_root = [''/'', ''srv'', ''sample_data'']"

definition demo_listing :: "pure_path list" where
  "demo_listing =
     map (\<lambda>rel. demo_root @ rel)
       [[''b'', ''a.txt''], [''a''], [''b'', ''far.bin''], [''b''], [''a'', ''z.txt''],
        [''a-c.txt''], [''a'', ''locked.bin'']]"

definition demo_files :: "pure_path list" where
  "demo_files =
     map (\<lambda>rel. demo_root @ rel)
       [[''b'', ''a.txt''], [''b'', ''far.bin''], [''a'', ''z.txt''], [''a-c.txt''],
        [''a'', ''locked.bin'']]"

definition demo_dirs :: "pure_path list" where
  "demo_dirs =
     [[''/''], [''/'', ''srv''], demo_root, demo_root @ [''a''], demo_root @ [''b'']]"

definition name_too_long :: "pure_path \<Rightarrow> bool" where
  "name_too_long p = list_ex (\<lambda>part. 255 < length part) p"

definition demo_size :: "pure_path \<Rightarrow> nat" where
  "demo_size p =
     (if p = demo_root @ [''a'', ''locked.bin''] then 3072
      else if p = demo_root @ [''a'', ''z.txt''] then 4096
      else if p = demo_root @ [''b'', ''a.txt''] then 2048
      else 1024)"

definition demo_mtime :: "pure_path \<Rightarrow> int" where
  "demo_mtime p =
     (if p = demo_root @ [''b'', ''far.bin''] then 100000000000000000 else 1709285400)"

definition demo_host :: "int host" where
  "demo_host =
     \<lparr>cwd = Inr [''/'', ''srv''],
      exists_p = (\<lambda>p. if name_too_long p then Inl OSError
                        else Inr (p \<in> set (demo_dirs @ demo_files))),
      is_dir = (\<lambda>p. if name_too_long p then Inl OSError else Inr (p \<in> set demo_dirs)),
      is_file = (\<lambda>p. if name_too_long p then Inl OSError else Inr (p \<in> set demo_files)),
      glob_all = (\<lambda>p. if p = demo_root then demo_listing else []),
      stat = (\<lambda>p. if p \<in> set demo_files
                    then Some \<lparr>st_size = demo_size p, st_mtime = demo_mtime p\<rparr>
                    else if p \<in> set demo_dirs
                    then Some \<lparr>st_size = 4096, st_mtime = 1709285400\<rparr>
                    else None),
      resolve = (\<lambda>p. Inr (concat (map (\<lambda>part. CHR ''/'' # part) (tl p)))),
      kb_rounded = (\<lambda>n. int (n div 1024)),
      iso_seconds = (\<lambda>t. if 100000000000000000 \<le> \<bar>t\<bar> then Inl OSError
                           else if 253402300800 \<le> t then Inl ValueError
                           else Inr ''2024-03-01T09:30:00'')\<rparr>"

text \<open>
  The same tree with the folder \<open>a\<close> readable but not searchable (mode 0444): it can be
  listed, and every check or metadata read of a path below it fails with a permission
  error.
\<close>

definition below_a :: "pure_path \<Rightarrow> bool" where
  "below_a p = (4 < length p \<and> take 4 p = demo_root @ [''a''])"

definition locked_host :: "int host" where
  "locked_host =
     demo_host
       \<lparr>exists_p := (\<lambda>p. if below_a p then Inl OSError else exists_p demo_host p),
        is_dir := (\<lambda>p. if below_a p then Inl OSError else is_dir demo_host p),
        is_file := (\<lambda>p. if below_a p then Inl OSError else is_file demo_host p),
        stat := (\<lambda>p. if below_a p then None else stat demo_host p)\<rparr>"

definition demo_record :: "string \<Rightarrow> string \<Rightarrow> string \<Rightarrow> int \<Rightarrow> int file_record" where
  "demo_record p nm e kb =
     \<lparr>path = p, name = nm, ext = e, size_kb = kb, modified_iso = ''2024-03-01T09:30:00''\<rparr>"


section \<open>Facts about strings and the tokenizer\<close>

lemma alnum_not_space: "isalnum ch \<Longrightarrow> \<not> isspace ch"
  by (auto simp: isalnum_def isspace_def in_range_def)

lemma isspace_blank: "isspace CHR '' ''"
  by (simp add: isspace_def in_range_def)

lemma blank_not_alnum: "\<not> isalnum CHR '' ''"
  by (simp add: isalnum_def in_range_def)

lemma cut_at_blanks_nonempty: "cut_at_blanks s \<noteq> []"
  by (induction s) (auto split: list.splits)

lemma split_from_cut:
  assumes "\<forall>ch \<in> set s. isspace ch \<longleftrightarrow> ch = CHR '' ''"
  shows "split_from cur s =
           filter (\<lambda>t. t \<noteq> []) ((cur @ hd (cut_at_blanks s)) # tl (cut_at_blanks s))"
  using assms
proof (induction s arbitrary: cur)
  case Nil
  then show ?case by simp
next
  case (Cons ch rest)
  have IH: "\<And>c. split_from c rest =
           filter (\<lambda>t. t \<noteq> []) ((c @ hd (cut_at_blanks rest)) # tl (cut_at_blanks rest))"
    using Cons by simp
  obtain p ps where cut: "cut_at_blanks rest = p # ps"
    using cut_at_blanks_nonempty [of rest] by (cases "cut_at_blanks rest") auto
  show ?case
  proof (cases "ch = CHR '' ''")
    case True
    then show ?thesis using IH [of "[]"] cut by (simp add: isspace_blank)
  next
    case False
    then have "\<not> isspace ch" using Cons.prems by simp
    then show ?thesis using False IH [of "cur @ [ch]"] cut by simp
  qed
qed

lemma blank_out_chars: "\<forall>ch \<in> set (blank_out s). isspace ch \<longleftrightarrow> ch = CHR '' ''"
  by (auto simp: blank_out_def alnum_not_space isspace_blank)

lemma tokenize_spec: "tokenize text = spec_tokenize text"
proof -
  have "split (blank_out (lower text)) =
          filter (\<lambda>t. t \<noteq> []) (cut_at_blanks (blank_out (lower text)))"
    using split_from_cut [OF blank_out_chars, of "[]" "lower text"]
      cut_at_blanks_nonempty [of "blank_out (lower text)"]
    by (simp add: split_def)
  then show ?thesis
    by (simp add: tokenize_def spec_tokenize_def blank_out_def)
qed

lemma startswith_iff: "startswith s t \<longleftrightarrow> (\<exists>q. s = t @ q)"
  by (induction s t rule: startswith.induct) auto

lemma str_contains_iff: "str_contains s t \<longleftrightarrow> (\<exists>p q. s = p @ t @ q)"
proof (induction s)
  case Nil
  then show ?case by auto
next
  case (Cons d s)
  show ?case
  proof
    assume "str_contains (d # s) t"
    then consider "startswith (d # s) t" | "str_contains s t" by auto
    then show "\<exists>p q. d # s = p @ t @ q"
    proof cases
      case 1
      then obtain q where "d # s = t @ q" using startswith_iff by blast
      then have "d # s = [] @ t @ q" by simp
      then show ?thesis by blast
    next
      case 2
      then obtain p q where "s = p @ t @ q" using Cons.IH by blast
      then have "d # s = (d # p) @ t @ q" by simp
      then show ?thesis by blast
    qed
  next
    assume "\<exists>p q. d # s = p @ t @ q"
    then obtain p q where pq: "d # s = p @ t @ q" by blast
    show "str_contains (d # s) t"
    proof (cases p)
      case Nil
      then have "startswith (d # s) t" using pq startswith_iff by auto
      then show ?thesis by simp
    next
      case (Cons a p')
      then have "s = p' @ t @ q" using pq by simp
      then have "str_contains s t" using Cons.IH by blast
      then show ?thesis by simp
    qed
  qed
qed

lemma space_not_alnum_lower: "isspace ch \<Longrightarrow> \<not> isalnum (lower_char ch)"
  by (auto simp: isalnum_def isspace_def lower_char_def in_range_def)

lemma split_from_spaces: "\<forall>ch \<in> set s. isspace ch \<Longrightarrow> split_from [] s = []"
  by (induction s) simp_all

lemma tokenize_blank: "is_blank query \<Longrightarrow> tokenize query = []"
proof -
  assume "is_blank query"
  then have sp: "\<forall>ch \<in> set query. isspace ch"
    by (simp add: is_blank_def list_all_iff)
  have "\<forall>ch \<in> set (map (\<lambda>ch. if isalnum ch then ch else CHR '' '') (lower query)). isspace ch"
    using sp by (auto simp: lower_def space_not_alnum_lower isspace_blank)
  then show ?thesis
    by (simp add: tokenize_def split_def split_from_spaces)
qed

lemma tokenize_example:
  "tokenize ''Q4_Report-2023.pdf'' = [''q4'', ''report'', ''2023'', ''pdf'']"
  by code_simp

section \<open>Facts about the matcher\<close>

lemma score_records_eq:
  "score_records Q recs scored =
     scored @ map (\<lambda>r. (overlap_of Q r, r)) (filter (\<lambda>r. 0 < overlap_of Q r) recs)"
  by (induction recs arbitrary: scored) (simp_all add: Let_def)

lemma insort_key_map:
  "insort_key f (g x) (map g xs) = map g (insort_key (\<lambda>y. f (g y)) x xs)"
  by (induction xs) simp_all

lemma sort_key_map: "sort_key f (map g xs) = map g (sort_key (\<lambda>y. f (g y)) xs)"
  by (induction xs) (simp_all add: insort_key_map)

lemma slice_to_map: "map f (slice_to xs k) = slice_to (map f xs) k"
  by (simp add: slice_to_def take_map)

lemma tokenize_Nil: "tokenize [] = []"
  by (simp add: tokenize_def lower_def split_def)

lemma overlap_of_no_tokens: "overlap_of {} rec = 0"
  by (simp add: overlap_of_def name_overlap_def)

lemma survivors_no_tokens:
  "tokenize query = [] \<Longrightarrow> survivors query records = []"
  by (simp add: survivors_def overlap_of_no_tokens)

lemma search_files_ranked: "search_files query records k = slice_to (ranked query records) k"
proof (cases "query = [] \<or> records = []")
  case True
  then have "survivors query records = []"
    using survivors_no_tokens [of query records] tokenize_Nil by (auto simp: survivors_def)
  then show ?thesis using True by (simp add: search_files_def ranked_def slice_to_def)
next
  case False
  let ?Q = "set (tokenize query)"
  have "map snd (sort_key rank_key (score_records ?Q records [])) = ranked query records"
    by (simp add: score_records_eq sort_key_map ranked_def survivors_def rank_key_def
        comp_def)
  then show ?thesis using False
    by (simp add: search_files_def Let_def slice_to_map)
qed

lemma ranked_sorted:
  "sorted (map (\<lambda>rec. (- int (overlap_of (set (tokenize query)) rec), name rec))
     (ranked query records))"
  by (simp add: ranked_def)

lemma slice_to_prefix: "\<exists>n. slice_to xs k = take n xs"
  by (auto simp: slice_to_def)

lemma set_ranked: "set (ranked query records) = set (survivors query records)"
  by (simp add: ranked_def)

lemma length_ranked: "length (ranked query records) = length (survivors query records)"
  by (simp add: ranked_def)

lemma overlap_of_spec:
  "overlap_of Q rec =
     (if card (Q \<inter> set (tokenize (name rec))) = 0
      then (if \<exists>t \<in> Q. \<exists>p s. lower (name rec) = p @ t @ s then 1 else 0)
      else card (Q \<inter> set (tokenize (name rec))))"
  by (simp add: overlap_of_def name_overlap_def str_contains_iff)

lemma search_files_subset:
  "set (search_files query records k) \<subseteq> set (survivors query records)"
proof -
  obtain n where "slice_to (ranked query records) k = take n (ranked query records)"
    using slice_to_prefix by blast
  then show ?thesis
    using set_take_subset [of n "ranked query records"]
    by (simp add: search_files_ranked set_ranked)
qed

lemma ranked_sorted_wrt:
  "sorted_wrt
     (\<lambda>a b. overlap_of (set (tokenize query)) b < overlap_of (set (tokenize query)) a \<or>
            overlap_of (set (tokenize query)) a = overlap_of (set (tokenize query)) b \<and>
            name a \<le> name b)
     (ranked query records)"
proof -
  let ?ov = "overlap_of (set (tokenize query))"
  have "sorted_wrt (\<lambda>a b. (- int (?ov a), name a) \<le> (- int (?ov b), name b))
          (ranked query records)"
    using ranked_sorted [of query records] by (simp add: sorted_wrt_map)
  then show ?thesis
    by (rule sorted_wrt_mono_rel [rotated]) auto
qed

lemma search_files_sorted_wrt:
  "sorted_wrt
     (\<lambda>a b. overlap_of (set (tokenize query)) b < overlap_of (set (tokenize query)) a \<or>
            overlap_of (set (tokenize query)) a = overlap_of (set (tokenize query)) b \<and>
            name a \<le> name b)
     (search_files query records k)"
proof -
  obtain n where "slice_to (ranked query records) k = take n (ranked query records)"
    using slice_to_prefix by blast
  then show ?thesis
    using ranked_sorted_wrt [of query records]
    by (simp add: search_files_ranked sorted_wrt_take)
qed

lemma search_files_all:
  "search_files query records (int (length records)) = ranked query records"
proof -
  have "length (ranked query records) \<le> length records"
    by (simp add: length_ranked survivors_def)
  then show ?thesis by (simp add: search_files_ranked slice_to_def)
qed

lemma ranked_stable:
  "filter (\<lambda>r. overlap_of (set (tokenize query)) r = n \<and> name r = nm) (ranked query records) =
   filter (\<lambda>r. overlap_of (set (tokenize query)) r = n \<and> name r = nm) (survivors query records)"
proof -
  let ?key = "\<lambda>rec. (- int (overlap_of (set (tokenize query)) rec), name rec)"
  have "filter (\<lambda>r. ?key r = (- int n, nm)) (ranked query records) =
        filter (\<lambda>r. ?key r = (- int n, nm)) (survivors query records)"
    unfolding ranked_def by (rule sort_key_stable)
  then show ?thesis by simp
qed

lemma tok_invoice: "tokenize ''invoice'' = [''invoice'']"
  by code_simp
lemma tok_n1: "tokenize ''Invoice_2023.pdf'' = [''invoice'', ''2023'', ''pdf'']"
  by code_simp
lemma tok_n2: "tokenize ''invoice_draft.txt'' = [''invoice'', ''draft'', ''txt'']"
  by code_simp
lemma tok_n3: "tokenize ''report.csv'' = [''report'', ''csv'']"
  by code_simp
lemma low_n3: "str_contains (lower ''report.csv'') ''invoice'' = False"
  by code_simp

lemma ov_n1: "overlap_of (set (tokenize ''invoice'')) (r\<lparr>name := ''Invoice_2023.pdf''\<rparr>) = 1"
  by (simp add: overlap_of_def name_overlap_def tok_invoice tok_n1)
lemma ov_n2: "overlap_of (set (tokenize ''invoice'')) (r\<lparr>name := ''invoice_draft.txt''\<rparr>) = 1"
  by (simp add: overlap_of_def name_overlap_def tok_invoice tok_n2)
lemma ov_n3: "overlap_of (set (tokenize ''invoice'')) (r\<lparr>name := ''report.csv''\<rparr>) = 0"
  by (simp add: overlap_of_def name_overlap_def tok_invoice tok_n3 low_n3)

lemma example_order:
  "map name (search_files ''invoice''
      [r1\<lparr>name := ''Invoice_2023.pdf''\<rparr>, r2\<lparr>name := ''invoice_draft.txt''\<rparr>,
       r3\<lparr>name := ''report.csv''\<rparr>] 5) = [''Invoice_2023.pdf'', ''invoice_draft.txt'']"
  by (simp add: search_files_ranked ranked_def survivors_def ov_n1 ov_n2 ov_n3 slice_to_def)

lemma example_order_rev:
  "map name (search_files ''invoice''
      [r3\<lparr>name := ''report.csv''\<rparr>, r2\<lparr>name := ''invoice_draft.txt''\<rparr>,
       r1\<lparr>name := ''Invoice_2023.pdf''\<rparr>] 5) = [''Invoice_2023.pdf'', ''invoice_draft.txt'']"
  by (simp add: search_files_ranked ranked_def survivors_def ov_n1 ov_n2 ov_n3 slice_to_def)


lemma inv_name_overlap:
  "name_overlap (set (tokenize ''inv'')) (sample_record ''invoice_final.pdf'') = 0"
  by code_simp

lemma inv_overlap_of:
  "overlap_of (set (tokenize ''inv'')) (sample_record ''invoice_final.pdf'') = 1"
  by code_simp

lemma inv_search:
  "search_files ''inv'' [sample_record ''invoice_final.pdf''] 5 =
     [sample_record ''invoice_final.pdf'']"
  by code_simp

lemma ten_reports_survive: "length (survivors ''report'' ten_reports) = 10"
  by code_simp

lemma ten_reports_top5:
  "map name (search_files ''report'' ten_reports 5) =
     [''report_0.txt'', ''report_1.txt'', ''report_2.txt'', ''report_3.txt'',
      ''report_4.txt'']"
  by code_simp

section \<open>Facts about the scanner\<close>




lemma scan_entries_skips_OSError:
  "is_file h entry = Inr True \<Longrightarrow> build_record h entry = Inl OSError \<Longrightarrow>
   scan_entries h (before @ entry # after) records = scan_entries h (before @ after) records"
  by (induction before arbitrary: records)
     (simp_all split: sum.splits bool.splits py_exn.splits)

lemma build_record_stat_None: "stat h entry = None \<Longrightarrow> build_record h entry = Inl OSError"
  by (simp add: build_record_def)










section \<open>The tokenizer\<close>

text \<open>
  C4. For every string, the tokenizer computes what the specification describes:
  lowercase the text, replace every character that is not alphanumeric by a blank, cut at
  blanks and drop the empty pieces. The token overlap of the matcher applies this one
  tokenizer to the query and to the record's name, and
  \<open>tokenize "Q4_Report-2023.pdf" = ["q4", "report", "2023", "pdf"]\<close>.
\<close>

theorem tokenize_as_specified:
  "tokenize text = spec_tokenize text \<and>
   name_overlap (set (tokenize query)) rec =
     card (set (spec_tokenize query) \<inter> set (spec_tokenize (name rec))) \<and>
   tokenize ''Q4_Report-2023.pdf'' = [''q4'', ''report'', ''2023'', ''pdf'']"
  by (simp add: tokenize_spec [symmetric] name_overlap_def tokenize_example)

section \<open>Empty inputs and the result cap\<close>

text \<open>
  C5. \<open>search_files\<close> returns the empty list whenever the query is empty or blank
  (only whitespace), and whenever the record list is empty, for every \<open>k\<close>.
\<close>

theorem search_files_empty_inputs:
  "query = [] \<or> is_blank query \<or> records = [] \<Longrightarrow> search_files query records k = []"
proof -
  assume "query = [] \<or> is_blank query \<or> records = []"
  then have "survivors query records = []"
    using tokenize_blank [of query] tokenize_Nil survivors_no_tokens [of query records]
    by (auto simp: survivors_def)
  then show ?thesis
    by (simp add: search_files_ranked ranked_def slice_to_def)
qed

theorem search_files_empty_inputs_witness:
  "is_blank [CHR '' '', CHR 0x09, CHR '' ''] \<and>
   search_files [CHR '' '', CHR 0x09, CHR '' ''] [sample_record ''report.csv''] 5 = [] \<and>
   search_files [] [sample_record ''report.csv''] 5 = [] \<and>
   search_files ''report'' ([] :: int file_record list) 5 = []"
proof -
  have b: "is_blank [CHR '' '', CHR 0x09, CHR '' '']"
    by (simp add: is_blank_def isspace_def in_range_def)
  show ?thesis
    using b
      search_files_empty_inputs [of "[CHR '' '', CHR 0x09, CHR '' '']"
        "[sample_record ''report.csv'']" 5]
      search_files_empty_inputs [of "[]" "[sample_record ''report.csv'']" 5]
      search_files_empty_inputs [of "''report''" "[] :: int file_record list" 5]
    by simp
qed

text \<open>
  C10. With \<open>k = 0\<close> the slice \<open>scored[:0]\<close> is empty, so \<open>search_files\<close> returns the
  empty list for every query and every record list, and the bound
  \<open>length \<le> max(k, 0)\<close> holds at \<open>k = 0\<close>.
\<close>

theorem search_files_zero_cap:
  "search_files query records 0 = [] \<and>
   int (length (search_files query records 0)) \<le> max 0 0"
  by (simp add: search_files_ranked slice_to_def)

section \<open>Scoring, ranking and truncation\<close>

text \<open>
  C1. The score that \<open>search_files\<close> gives a record is the number of distinct tokens
  shared by the query and the record's name; when that number is 0 and some query token
  occurs as a substring of the lowercased name, the score is exactly 1. The scoring loop
  keeps exactly the records with a positive score, so a record whose score is 0 occurs
  nowhere in the result. The query \<open>inv\<close> shares no token with \<open>invoice_final.pdf\<close>,
  scores 1 by the substring rule, and the record is returned.
\<close>

theorem overlap_scoring:
  "overlap_of (set (tokenize query)) rec =
     (if card (set (tokenize query) \<inter> set (tokenize (name rec))) = 0
      then (if \<exists>t \<in> set (tokenize query). \<exists>p s. lower (name rec) = p @ t @ s
            then 1 else 0)
      else card (set (tokenize query) \<inter> set (tokenize (name rec)))) \<and>
   score_records (set (tokenize query)) records [] =
     map (\<lambda>r. (overlap_of (set (tokenize query)) r, r)) (survivors query records) \<and>
   set (search_files query records k) \<subseteq>
     {r \<in> set records. 0 < overlap_of (set (tokenize query)) r} \<and>
   name_overlap (set (tokenize ''inv'')) (sample_record ''invoice_final.pdf'') = 0 \<and>
   overlap_of (set (tokenize ''inv'')) (sample_record ''invoice_final.pdf'') = 1 \<and>
   search_files ''inv'' [sample_record ''invoice_final.pdf''] 5 =
     [sample_record ''invoice_final.pdf'']"
proof -
  have a: "set (search_files query records k) \<subseteq>
     {r \<in> set records. 0 < overlap_of (set (tokenize query)) r}"
    using search_files_subset [of query records k] by (auto simp: survivors_def)
  have b: "score_records (set (tokenize query)) records [] =
     map (\<lambda>r. (overlap_of (set (tokenize query)) r, r)) (survivors query records)"
    by (simp add: score_records_eq survivors_def)
  show ?thesis
    using a b overlap_of_spec [of "set (tokenize query)" rec]
      inv_name_overlap inv_overlap_of inv_search
    by blast
qed

text \<open>
  C2. The result is ordered by \<open>(-overlap, name)\<close>: a record comes before another only if
  its overlap is strictly higher, or the overlaps are equal and its name is not greater in
  the lexicographic order of strings; records that agree on overlap and name keep their
  input order. For records named \<open>Invoice_2023.pdf\<close>, \<open>invoice_draft.txt\<close>, \<open>report.csv\<close>
  and the query \<open>invoice\<close> the result is \<open>Invoice_2023.pdf\<close>, \<open>invoice_draft.txt\<close>, in
  that order, whatever the order of the input.
\<close>

theorem search_files_order:
  "sorted_wrt
     (\<lambda>a b. overlap_of (set (tokenize query)) b < overlap_of (set (tokenize query)) a \<or>
            overlap_of (set (tokenize query)) a = overlap_of (set (tokenize query)) b \<and>
            name a \<le> name b)
     (search_files query records k) \<and>
   filter (\<lambda>r. overlap_of (set (tokenize query)) r = n \<and> name r = nm)
       (search_files query records (int (length records))) =
     filter (\<lambda>r. overlap_of (set (tokenize query)) r = n \<and> name r = nm)
       (survivors query records) \<and>
   map name (search_files ''invoice''
      [r1\<lparr>name := ''Invoice_2023.pdf''\<rparr>, r2\<lparr>name := ''invoice_draft.txt''\<rparr>,
       r3\<lparr>name := ''report.csv''\<rparr>] 5) = [''Invoice_2023.pdf'', ''invoice_draft.txt''] \<and>
   map name (search_files ''invoice''
      [r3\<lparr>name := ''report.csv''\<rparr>, r2\<lparr>name := ''invoice_draft.txt''\<rparr>,
       r1\<lparr>name := ''Invoice_2023.pdf''\<rparr>] 5) = [''Invoice_2023.pdf'', ''invoice_draft.txt'']"
  using search_files_sorted_wrt [of query records k]
    ranked_stable [of query n nm records] search_files_all [of query records]
    example_order [of r1 r2 r3] example_order_rev [of r3 r2 r1]
  by simp

text \<open>
  C3. For a positive \<open>k\<close> the result has at most \<open>k\<close> records and is the first \<open>k\<close> of
  the surviving records in ranked order: exactly \<open>k\<close> when at least \<open>k\<close> survive, all of
  them when fewer survive.
\<close>

theorem search_files_top_k:
  assumes "0 < k"
  shows "length (search_files query records k) \<le> nat k \<and>
     search_files query records k = take (nat k) (ranked query records) \<and>
     (nat k \<le> length (survivors query records) \<longrightarrow>
        length (search_files query records k) = nat k) \<and>
     (length (survivors query records) < nat k \<longrightarrow>
        search_files query records k = ranked query records)"
  using assms by (simp add: search_files_ranked slice_to_def length_ranked)

theorem search_files_top_k_witness:
  "(0::int) < 5 \<and> length (survivors ''report'' ten_reports) = 10 \<and>
   length (search_files ''report'' ten_reports 5) = 5 \<and>
   search_files ''report'' ten_reports 5 = take 5 (ranked ''report'' ten_reports) \<and>
   map name (search_files ''report'' ten_reports 5) =
     [''report_0.txt'', ''report_1.txt'', ''report_2.txt'', ''report_3.txt'',
      ''report_4.txt''] \<and>
   length (survivors ''report'' (take 3 ten_reports)) = 3 \<and>
   search_files ''report'' (take 3 ten_reports) 5 = ranked ''report'' (take 3 ten_reports)"
proof -
  have h: "(0::int) < 5" by simp
  note t10 = search_files_top_k [OF h, of "''report''" ten_reports]
  note t3 = search_files_top_k [OF h, of "''report''" "take 3 ten_reports"]
  have s3: "length (survivors ''report'' (take 3 ten_reports)) = 3" by code_simp
  have a: "length (search_files ''report'' ten_reports 5) = 5"
    using t10 ten_reports_survive by (simp add: length_ranked)
  have b: "search_files ''report'' ten_reports 5 = take 5 (ranked ''report'' ten_reports)"
    using t10 by simp
  have c: "search_files ''report'' (take 3 ten_reports) 5 =
             ranked ''report'' (take 3 ten_reports)"
    using t3 s3 by (simp add: length_ranked)
  show ?thesis
    using h ten_reports_survive a b ten_reports_top5 s3 c by blast
qed

section \<open>The search trigger\<close>

text \<open>
  C6. \<open>looks_like_search\<close> is true exactly when one of the twelve trigger keywords is a
  token of the text or a substring of the lowercased text. It is a function of the text
  alone; \<open>search_files\<close> does not refer to it.
\<close>

theorem looks_like_search_iff:
  "(looks_like_search text \<longleftrightarrow>
     (\<exists>k \<in> {''find'', ''search'', ''show'', ''document'', ''doc'', ''contract'', ''invoice'',
            ''report'', ''handbook'', ''slide'', ''presentation'', ''prd''}.
        k \<in> set (tokenize text) \<or> (\<exists>p s. lower text = p @ k @ s))) \<and>
   looks_like_search ''Find my invoices'' \<and>
   looks_like_search ''quarterly reporting'' \<and>
   \<not> looks_like_search ''hello world''"
proof -
  have a: "looks_like_search text \<longleftrightarrow>
     (\<exists>k \<in> {''find'', ''search'', ''show'', ''document'', ''doc'', ''contract'', ''invoice'',
            ''report'', ''handbook'', ''slide'', ''presentation'', ''prd''}.
        k \<in> set (tokenize text) \<or> (\<exists>p s. lower text = p @ k @ s))"
    unfolding looks_like_search_def SEARCH_TRIGGER_KEYWORDS_def Let_def str_contains_iff ..
  have b: "looks_like_search ''Find my invoices''" by code_simp
  have c: "looks_like_search ''quarterly reporting''" by code_simp
  have d: "\<not> looks_like_search ''hello world''" by code_simp
  show ?thesis using a b c d by blast
qed

section \<open>The scanner\<close>

text \<open>
  C7 (amended). When \<open>exists()\<close> answers that the root path does not exist, or \<open>exists()\<close>
  answers that it does and \<open>is_dir()\<close> answers that it is not a directory,
  \<open>scan_dummy_data\<close> returns the empty list as a normal result (\<open>Inr\<close>, no exception),
  both for a root given by the caller and for the default root. A root that does not exist
  and whose check raises is another matter: for a root name of 300 characters \<open>exists()\<close>
  raises \<open>OSError\<close> (name too long) and the exception leaves \<open>scan_dummy_data\<close>.
\<close>

theorem scan_missing_root:
  "(exists_p h p = Inr False \<or> (exists_p h p = Inr True \<and> is_dir h p = Inr False) \<longrightarrow>
      scan_dummy_data h (Some p) = Inr []) \<and>
   (default_root h = Inr p \<and>
    (exists_p h p = Inr False \<or> (exists_p h p = Inr True \<and> is_dir h p = Inr False)) \<longrightarrow>
      scan_dummy_data h None = Inr [])"
  by (auto simp: scan_dummy_data_def root_path_of_def)

theorem scan_missing_root_witness:
  "exists_p demo_host [''/'', ''srv'', ''missing''] = Inr False \<and>
   scan_dummy_data demo_host (Some [''/'', ''srv'', ''missing'']) = Inr [] \<and>
   exists_p demo_host (demo_root @ [''a-c.txt'']) = Inr True \<and>
   is_dir demo_host (demo_root @ [''a-c.txt'']) = Inr False \<and>
   scan_dummy_data demo_host (Some (demo_root @ [''a-c.txt''])) = Inr [] \<and>
   default_root (demo_host\<lparr>cwd := Inr [''/'', ''tmp'']\<rparr>) = Inr [''/'', ''tmp'', ''dummy_data''] \<and>
   exists_p (demo_host\<lparr>cwd := Inr [''/'', ''tmp'']\<rparr>) [''/'', ''tmp'', ''dummy_data''] =
     Inr False \<and>
   scan_dummy_data (demo_host\<lparr>cwd := Inr [''/'', ''tmp'']\<rparr>) None = Inr []"
proof -
  have a: "exists_p demo_host [''/'', ''srv'', ''missing''] = Inr False"
    by code_simp
  have b: "exists_p demo_host (demo_root @ [''a-c.txt'']) = Inr True"
    by code_simp
  have c: "is_dir demo_host (demo_root @ [''a-c.txt'']) = Inr False"
    by code_simp
  have d: "default_root (demo_host\<lparr>cwd := Inr [''/'', ''tmp'']\<rparr>) =
             Inr [''/'', ''tmp'', ''dummy_data'']"
    by code_simp
  have e: "exists_p (demo_host\<lparr>cwd := Inr [''/'', ''tmp'']\<rparr>) [''/'', ''tmp'', ''dummy_data''] =
             Inr False"
    by code_simp
  show ?thesis
    using a b c d e
      scan_missing_root [of demo_host "[''/'', ''srv'', ''missing'']"]
      scan_missing_root [of demo_host "demo_root @ [''a-c.txt'']"]
      scan_missing_root [of "demo_host\<lparr>cwd := Inr [''/'', ''tmp'']\<rparr>"
        "[''/'', ''tmp'', ''dummy_data'']"]
    by blast
qed

theorem scan_missing_root_counterexample:
  "[replicate 300 CHR ''n''] \<notin> set (demo_dirs @ demo_files) \<and>
   exists_p demo_host [replicate 300 CHR ''n''] = Inl OSError \<and>
   scan_dummy_data demo_host (Some [replicate 300 CHR ''n'']) = Inl OSError \<and>
   scan_dummy_data demo_host (Some [replicate 300 CHR ''n'']) \<noteq> Inr []"
proof -
  have a: "[replicate 300 CHR ''n''] \<notin> set (demo_dirs @ demo_files)"
    by code_simp
  have b: "exists_p demo_host [replicate 300 CHR ''n''] = Inl OSError"
    by code_simp
  have c: "scan_dummy_data demo_host (Some [replicate 300 CHR ''n'']) = Inl OSError"
    by code_simp
  show ?thesis using a b c by simp
qed

text \<open>
  C8. A file whose metadata cannot be read is to be skipped, and the scan is to go on with
  the remaining files (the comment \<open># Skip unreadable files\<close>). The code does so when
  \<open>entry.stat()\<close> fails inside the \<open>try\<close> block, but \<open>entry.is_file()\<close> is called before
  the block. On the tree whose folder \<open>a\<close> is not searchable, \<open>is_file\<close> raises a
  permission error for \<open>a/locked.bin\<close>, the exception leaves \<open>scan_dummy_data\<close>, and no
  list is returned, although \<open>b/a.txt\<close> is readable and its record can be built.
\<close>

theorem scan_aborts_on_unreadable_file:
  "demo_root @ [''a'', ''locked.bin''] \<in> set (glob_all locked_host demo_root) \<and>
   is_file locked_host (demo_root @ [''a'', ''locked.bin'']) = Inl OSError \<and>
   stat locked_host (demo_root @ [''a'', ''locked.bin'']) = None \<and>
   is_file locked_host (demo_root @ [''b'', ''a.txt'']) = Inr True \<and>
   build_record locked_host (demo_root @ [''b'', ''a.txt'']) =
     Inr (demo_record ''/srv/sample_data/b/a.txt'' ''a.txt'' ''.txt'' 2) \<and>
   scan_dummy_data locked_host (Some demo_root) = Inl OSError"
proof -
  have a: "demo_root @ [''a'', ''locked.bin''] \<in> set (glob_all locked_host demo_root)"
    by code_simp
  have b: "is_file locked_host (demo_root @ [''a'', ''locked.bin'']) = Inl OSError"
    by code_simp
  have c: "stat locked_host (demo_root @ [''a'', ''locked.bin'']) = None"
    by code_simp
  have d: "is_file locked_host (demo_root @ [''b'', ''a.txt'']) = Inr True"
    by code_simp
  have e: "build_record locked_host (demo_root @ [''b'', ''a.txt'']) =
     Inr (demo_record ''/srv/sample_data/b/a.txt'' ''a.txt'' ''.txt'' 2)"
    by code_simp
  have f: "scan_dummy_data locked_host (Some demo_root) = Inl OSError"
    by code_simp
  show ?thesis using a b c d e f by blast
qed




end
